theory Spec2Isabelle
  imports Main "HOL-Library.Multiset"
begin

section \<open>Retro Board: the data model of \<open>src/src/App.tsx\<close>\<close>

text \<open>
  The three interfaces of \<open>App.tsx\<close> are records. Field names are the source's, with
  the record's name in front where two interfaces share a name (\<open>id\<close>, \<open>user_id\<close>,
  \<open>content\<close>, \<open>created_at\<close>, \<open>users\<close>). An optional field (\<open>votes?\<close>, \<open>comments?\<close>,
  \<open>users?\<close>) is an \<open>option\<close>: \<open>None\<close> is JavaScript's \<open>undefined\<close>. The embedded
  \<open>users\<close> object has the single field \<open>nickname\<close>, so it is modelled by that string.
\<close>

datatype Category = Good | Bad | Better

record Vote =
  vote_id :: string
  vote_retro_item_id :: string
  vote_user_id :: string
  vote_users :: "string option"

record Comment =
  comment_id :: string
  comment_retro_item_id :: string
  comment_user_id :: string
  comment_content :: string
  comment_created_at :: string
  comment_users :: "string option"

record RetroItem =
  item_id :: string
  category :: Category
  content :: string
  created_by :: string
  created_at :: string
  votes :: "Vote list option"
  comments :: "Comment list option"
  users :: "string option"

text \<open>The signed-in user of \<open>useUser()\<close>; the component reads only \<open>user.id\<close>.\<close>

record User =
  uid :: string

section \<open>Sorting the fetched rows\<close>

text \<open>
  \<open>a.votes?.length || 0\<close>: an item without an embedded votes array counts as having
  no votes.
\<close>

definition voteCount :: "RetroItem \<Rightarrow> nat" where
  "voteCount a = (case votes a of None \<Rightarrow> 0 | Some vs \<Rightarrow> length vs)"

text \<open>
  The comparator handed to \<open>Array.prototype.sort\<close> in \<open>fetchItems\<close>. The function
  \<open>getTime\<close> stands for the built-in \<open>new Date(s).getTime()\<close>: the milliseconds of the
  instant the string denotes, or \<open>None\<close> for JavaScript's \<open>NaN\<close> when the string is
  not a date. A difference with a \<open>NaN\<close> operand is \<open>NaN\<close>.
\<close>

definition compareFn ::
  "(string \<Rightarrow> int option) \<Rightarrow> RetroItem \<Rightarrow> RetroItem \<Rightarrow> int option" where
  "compareFn getTime a b =
     (let aVotes = voteCount a; bVotes = voteCount b in
      if bVotes \<noteq> aVotes then Some (int bVotes - int aVotes)
      else (case getTime (created_at b) of
              None \<Rightarrow> None
            | Some tb \<Rightarrow> (case getTime (created_at a) of
                           None \<Rightarrow> None
                         | Some ta \<Rightarrow> Some (tb - ta))))"

text \<open>
  \<open>Array.prototype.sort\<close> is a built-in of the language. It reads a comparator's
  \<open>NaN\<close> as \<open>0\<close> (\<open>sortCompare\<close>), it is stable, and it places \<open>x\<close> before \<open>y\<close>
  when the comparator is negative. It is modelled by a stable insertion sort: each
  element, from the last to the first, is put in front of the first element it does not
  have to follow. For a consistent comparator this is the order every stable sort
  gives. \<open>compareFn\<close> is consistent when every date parses; with a \<open>NaN\<close> date the
  language leaves the order to the implementation, and the model fixes this one.
\<close>

definition sortCompare :: "('a \<Rightarrow> 'a \<Rightarrow> int option) \<Rightarrow> 'a \<Rightarrow> 'a \<Rightarrow> int" where
  "sortCompare comparefn x y = (case comparefn x y of None \<Rightarrow> 0 | Some v \<Rightarrow> v)"

fun sortInsert :: "('a \<Rightarrow> 'a \<Rightarrow> int) \<Rightarrow> 'a \<Rightarrow> 'a list \<Rightarrow> 'a list" where
  "sortInsert cmp x [] = [x]"
| "sortInsert cmp x (y # ys) =
     (if cmp x y \<le> 0 then x # y # ys else y # sortInsert cmp x ys)"

definition arraySort :: "('a \<Rightarrow> 'a \<Rightarrow> int option) \<Rightarrow> 'a list \<Rightarrow> 'a list" where
  "arraySort comparefn xs = foldr (sortInsert (sortCompare comparefn)) xs []"

text \<open>\<open>data || []\<close>: a \<open>null\<close> result is the empty array.\<close>

definition dataOrEmpty :: "RetroItem list option \<Rightarrow> RetroItem list" where
  "dataOrEmpty data = (case data of None \<Rightarrow> [] | Some rows \<Rightarrow> rows)"

definition sortedData ::
  "(string \<Rightarrow> int option) \<Rightarrow> RetroItem list option \<Rightarrow> RetroItem list" where
  "sortedData getTime data = arraySort (compareFn getTime) (dataOrEmpty data)"

section \<open>Component state, backend calls and effects\<close>

text \<open>
  The state of the \<open>App\<close> component: the \<open>useUser\<close> hook's user and the five
  \<open>useState\<close> cells. \<open>newItemContent\<close> is a \<open>Record<Category, string>\<close> with all three
  keys; \<open>showComments\<close> and \<open>newComments\<close> are objects keyed by item id.
\<close>

record appState =
  user :: "User option"
  items :: "RetroItem list"
  loading :: bool
  newItemContent :: "Category \<Rightarrow> string"
  showComments :: "string \<rightharpoonup> bool"
  newComments :: "string \<rightharpoonup> string"

text \<open>
  What the backend hands to a \<open>catch\<close> block: the \<open>error\<close> of a result (\<open>if (error)
  throw error\<close>) or the reason of a rejected promise. The handlers read
  \<open>error?.message\<close> and \<open>error?.error?.message\<close> only.
\<close>

record apiError =
  message :: "string option"
  error_message :: "string option"

datatype 'a response = Failure apiError | Success 'a

text \<open>The calls the component makes on \<open>insforge.database\<close>, with their arguments.\<close>

datatype backendCall =
    SelectItems
  | InsertItem Category string string
  | InsertVote string string
  | DeleteVote string
  | InsertComment string string string
  | DeleteItem string
  | DeleteComment string

fun isMutation :: "backendCall \<Rightarrow> bool" where
  "isMutation SelectItems = False"
| "isMutation _ = True"

datatype logged = LoggedError apiError | LoggedText string

datatype effect =
    Backend backendCall
  | ConsoleError string logged
  | Alert string
  | Confirm string

text \<open>
  \<open>x || y\<close> on an optional string: \<open>undefined\<close> and the empty string are falsy.
  \<open>errorMessage\<close> is the expression \<open>error?.message || error?.error?.message || fallback\<close>
  of every \<open>catch\<close> block.
\<close>

fun orElse :: "string option \<Rightarrow> string \<Rightarrow> string" where
  "orElse None y = y"
| "orElse (Some x) y = (if x = [] then y else x)"

definition errorMessage :: "apiError \<Rightarrow> string \<Rightarrow> string" where
  "errorMessage e fallback = orElse (message e) (orElse (error_message e) fallback)"

section \<open>fetchItems and the projections\<close>

text \<open>
  \<open>fetchItems\<close>, given the outcome of the select. A handler is a function from the
  component state to the state after it has run and the effects it had, in order.
\<close>

definition fetchItems ::
  "(string \<Rightarrow> int option) \<Rightarrow> RetroItem list option response \<Rightarrow> appState
     \<Rightarrow> appState \<times> effect list" where
  "fetchItems getTime resp s =
     (case resp of
        Failure e \<Rightarrow>
          (s\<lparr>loading := False\<rparr>,
           [Backend SelectItems,
            ConsoleError ''Error fetching items:'' (LoggedError e),
            ConsoleError ''Error details:''
              (LoggedText (errorMessage e ''Failed to load items.''))])
      | Success data \<Rightarrow>
          (s\<lparr>items := sortedData getTime data, loading := False\<rparr>,
           [Backend SelectItems]))"

definition getItemsByCategory :: "appState \<Rightarrow> Category \<Rightarrow> RetroItem list" where
  "getItemsByCategory s c = filter (\<lambda>item. category item = c) (items s)"

definition hasUserVoted :: "appState \<Rightarrow> RetroItem \<Rightarrow> bool option" where
  \<comment> \<open>\<open>user ? item.votes?.some(...) : false\<close>; \<open>None\<close> is the \<open>undefined\<close> that
      optional chaining gives for an item without a votes array.\<close>
  "hasUserVoted s item =
     (case user s of
        None \<Rightarrow> Some False
      | Some u \<Rightarrow>
          (case votes item of
             None \<Rightarrow> None
           | Some vs \<Rightarrow> Some (list_ex (\<lambda>vote. vote_user_id vote = uid u) vs)))"

section \<open>The interaction handlers\<close>

text \<open>
  \<open>String.prototype.trim\<close> removes white space and line terminators from both ends.
  Characters are the code units below 256: tab, line feed, vertical tab, form feed,
  carriage return, space and the no-break space.
\<close>

definition isWhiteSpace :: "char \<Rightarrow> bool" where
  "isWhiteSpace c \<longleftrightarrow>
     c \<in> set [CHR 0x09, CHR 0x0A, CHR 0x0B, CHR 0x0C, CHR 0x0D, CHR 0x20, CHR 0xA0]"

definition trim :: "string \<Rightarrow> string" where
  "trim str = rev (dropWhile isWhiteSpace (rev (dropWhile isWhiteSpace str)))"

text \<open>
  Every handler has the same \<open>catch\<close> block, up to its label and its fallback
  message: \<open>console.error(label, error)\<close>, then \<open>alert(errorMessage)\<close>.
\<close>

definition catchBlock :: "string \<Rightarrow> string \<Rightarrow> apiError \<Rightarrow> effect list" where
  "catchBlock label fallback e =
     [ConsoleError label (LoggedError e), Alert (errorMessage e fallback)]"

text \<open>
  A handler takes the outcome of each call it awaits as an argument: \<open>resp\<close> for its
  mutation, \<open>fetched\<close> for the select of the \<open>fetchItems\<close> it starts, \<open>confirmed\<close> for
  the answer to \<open>confirm(...)\<close>. A \<open>throw\<close> inside \<open>try\<close> is the \<open>Failure\<close> branch,
  which runs the \<open>catch\<close> block; an early \<open>return\<close> leaves the state as it is, with
  no effect.

  \<open>addItem\<close> does not call \<open>fetchItems\<close>: it puts the inserted row, with empty votes and
  comments, in front of \<open>items\<close> and clears the category's draft.
\<close>

definition addItem :: "RetroItem response \<Rightarrow> Category \<Rightarrow> appState \<Rightarrow> appState \<times> effect list" where
  "addItem resp cat s =
     (let content = trim (newItemContent s cat) in
      case user s of
        None \<Rightarrow> (s, [])
      | Some u \<Rightarrow>
          if content = [] then (s, [])
          else
            (case resp of
               Failure e \<Rightarrow>
                 (s, Backend (InsertItem cat content (uid u))
                       # catchBlock ''Error adding item:''
                           ''Failed to add item. Please try again.'' e)
             | Success data \<Rightarrow>
                 (s\<lparr>items := data\<lparr>votes := Some [], comments := Some []\<rparr> # items s,
                    newItemContent := (newItemContent s)(cat := [])\<rparr>,
                  [Backend (InsertItem cat content (uid u))])))"

text \<open>
  \<open>items.find((item) => item.id === itemId)?.votes?.find((vote) => vote.user_id ===
  user.id)\<close>, and the mutation \<open>toggleVote\<close> chooses from it.
\<close>

definition existingVote :: "appState \<Rightarrow> User \<Rightarrow> string \<Rightarrow> Vote option" where
  "existingVote s u itemId =
     (case find (\<lambda>item. item_id item = itemId) (items s) of
        None \<Rightarrow> None
      | Some item \<Rightarrow>
          (case votes item of
             None \<Rightarrow> None
           | Some vs \<Rightarrow> find (\<lambda>vote. vote_user_id vote = uid u) vs))"

definition toggleVoteCall :: "appState \<Rightarrow> User \<Rightarrow> string \<Rightarrow> backendCall" where
  "toggleVoteCall s u itemId =
     (case existingVote s u itemId of
        Some v \<Rightarrow> DeleteVote (vote_id v)
      | None \<Rightarrow> InsertVote itemId (uid u))"

definition toggleVote ::
  "(string \<Rightarrow> int option) \<Rightarrow> unit response \<Rightarrow> RetroItem list option response \<Rightarrow> string
     \<Rightarrow> appState \<Rightarrow> appState \<times> effect list" where
  "toggleVote getTime resp fetched itemId s =
     (case user s of
        None \<Rightarrow> (s, [])
      | Some u \<Rightarrow>
          (case resp of
             Failure e \<Rightarrow>
               (s, Backend (toggleVoteCall s u itemId)
                     # catchBlock ''Error toggling vote:'' ''Failed to vote. Please try again.'' e)
           | Success _ \<Rightarrow>
               (let (s', es) = fetchItems getTime fetched s
                in (s', Backend (toggleVoteCall s u itemId) # es))))"

text \<open>\<open>newComments[itemId]?.trim()\<close> is \<open>undefined\<close>, hence falsy, without a draft.\<close>

definition commentDraft :: "appState \<Rightarrow> string \<Rightarrow> string" where
  "commentDraft s itemId = (case newComments s itemId of None \<Rightarrow> [] | Some d \<Rightarrow> trim d)"

definition addComment ::
  "(string \<Rightarrow> int option) \<Rightarrow> unit response \<Rightarrow> RetroItem list option response \<Rightarrow> string
     \<Rightarrow> appState \<Rightarrow> appState \<times> effect list" where
  "addComment getTime resp fetched itemId s =
     (let content = commentDraft s itemId in
      case user s of
        None \<Rightarrow> (s, [])
      | Some u \<Rightarrow>
          if content = [] then (s, [])
          else
            (case resp of
               Failure e \<Rightarrow>
                 (s, Backend (InsertComment itemId (uid u) content)
                       # catchBlock ''Error adding comment:''
                           ''Failed to add comment. Please try again.'' e)
             | Success _ \<Rightarrow>
                 (let (s', es) =
                        fetchItems getTime fetched
                          (s\<lparr>newComments := (newComments s)(itemId \<mapsto> [])\<rparr>)
                  in (s', Backend (InsertComment itemId (uid u) content) # es))))"

definition deleteItemPrompt :: string where
  "deleteItemPrompt =
     ''Are you sure you want to delete this item? This will also delete all votes and comments.''"

definition deleteItem ::
  "(string \<Rightarrow> int option) \<Rightarrow> bool \<Rightarrow> unit response \<Rightarrow> RetroItem list option response \<Rightarrow> string
     \<Rightarrow> appState \<Rightarrow> appState \<times> effect list" where
  "deleteItem getTime confirmed resp fetched itemId s =
     (case user s of
        None \<Rightarrow> (s, [])
      | Some u \<Rightarrow>
          if \<not> confirmed then (s, [Confirm deleteItemPrompt])
          else
            (case resp of
               Failure e \<Rightarrow>
                 (s, Confirm deleteItemPrompt # Backend (DeleteItem itemId)
                       # catchBlock ''Error deleting item:''
                           ''Failed to delete item. Please try again.'' e)
             | Success _ \<Rightarrow>
                 (let (s', es) = fetchItems getTime fetched s
                  in (s', Confirm deleteItemPrompt # Backend (DeleteItem itemId) # es))))"

definition deleteCommentPrompt :: string where
  "deleteCommentPrompt = ''Are you sure you want to delete this comment?''"

definition deleteComment ::
  "(string \<Rightarrow> int option) \<Rightarrow> bool \<Rightarrow> unit response \<Rightarrow> RetroItem list option response \<Rightarrow> string
     \<Rightarrow> appState \<Rightarrow> appState \<times> effect list" where
  "deleteComment getTime confirmed resp fetched commentId s =
     (case user s of
        None \<Rightarrow> (s, [])
      | Some u \<Rightarrow>
          if \<not> confirmed then (s, [Confirm deleteCommentPrompt])
          else
            (case resp of
               Failure e \<Rightarrow>
                 (s, Confirm deleteCommentPrompt # Backend (DeleteComment commentId)
                       # catchBlock ''Error deleting comment:''
                           ''Failed to delete comment. Please try again.'' e)
             | Success _ \<Rightarrow>
                 (let (s', es) = fetchItems getTime fetched s
                  in (s', Confirm deleteCommentPrompt # Backend (DeleteComment commentId) # es))))"

text \<open>The backend calls among a handler's effects, and the mutations among those.\<close>

fun backendCalls :: "effect list \<Rightarrow> backendCall list" where
  "backendCalls [] = []"
| "backendCalls (Backend c # es) = c # backendCalls es"
| "backendCalls (_ # es) = backendCalls es"

definition mutations :: "effect list \<Rightarrow> backendCall list" where
  "mutations es = filter isMutation (backendCalls es)"

fun alerts :: "effect list \<Rightarrow> string list" where
  "alerts [] = []"
| "alerts (Alert msg # es) = msg # alerts es"
| "alerts (_ # es) = alerts es"

section \<open>The backend's votes, as the specification describes them\<close>

text \<open>
  Modelled from the spec: the rows the external service stores (section 3, the
  entities; section 6, the backend collaborator contract). The service is not part of
  the repository. \<open>retro_items\<close> are the item rows as a select returns them, but for
  their embedded votes; \<open>votesTable\<close> are the vote rows; \<open>nicknames\<close> is the display
  name of each user.
\<close>

record backend =
  retro_items :: "RetroItem list"
  votesTable :: "Vote list"
  nicknames :: "string \<rightharpoonup> string"

text \<open>
  Modelled from the spec: the query of \<open>fetchItems\<close> ("fetch Items joined with their
  Votes"): every item row, with the votes that reference it embedded. An embedded vote
  keeps its \<open>retro_item_id\<close> here; the component never reads that field.
\<close>

definition selectItems :: "backend \<Rightarrow> RetroItem list" where
  "selectItems be =
     map (\<lambda>row. row\<lparr>votes :=
                  Some (filter (\<lambda>v. vote_retro_item_id v = item_id row) (votesTable be))\<rparr>)
       (retro_items be)"

text \<open>
  Modelled from the spec: what a mutation does to the stored votes. An insert adds one
  row with a generated id (\<open>newId\<close>); a delete removes the rows the predicate
  \<open>eq('id', voteId)\<close> matches. The other calls are not followed here.
\<close>

fun applyCall :: "string \<Rightarrow> backendCall \<Rightarrow> backend \<Rightarrow> backend" where
  "applyCall newId (InsertVote itemId userId) be =
     be\<lparr>votesTable := votesTable be @
          [\<lparr>vote_id = newId, vote_retro_item_id = itemId, vote_user_id = userId,
            vote_users = nicknames be userId\<rparr>]\<rparr>"
| "applyCall newId (DeleteVote voteId) be =
     be\<lparr>votesTable := filter (\<lambda>v. vote_id v \<noteq> voteId) (votesTable be)\<rparr>"
| "applyCall newId call be = be"

text \<open>
  The invariant of the data model: at most one vote for each pair of item and user.
\<close>

definition onePerPair :: "Vote list \<Rightarrow> bool" where
  "onePerPair tbl = distinct (map (\<lambda>v. (vote_retro_item_id v, vote_user_id v)) tbl)"

text \<open>A vote by the user on the item with this id is stored.\<close>

definition storedVote :: "backend \<Rightarrow> User \<Rightarrow> string \<Rightarrow> bool" where
  "storedVote be u itemId =
     list_ex (\<lambda>v. vote_retro_item_id v = itemId \<and> vote_user_id v = uid u) (votesTable be)"

text \<open>The view model shows a vote by the user on the item with this id.\<close>

definition viewHasVote :: "appState \<Rightarrow> User \<Rightarrow> string \<Rightarrow> bool" where
  "viewHasVote s u itemId =
     list_ex (\<lambda>item. item_id item = itemId \<and>
                (case votes item of
                   None \<Rightarrow> False
                 | Some vs \<Rightarrow> list_ex (\<lambda>vote. vote_user_id vote = uid u) vs))
       (items s)"

text \<open>
  Modelled from the spec: one successful toggle against the backend. The backend
  performs the mutation \<open>toggleVote\<close> issues, and the select of the reload that follows
  returns the rows as they are then ("the second toggle observing the state produced by
  the first").
\<close>

definition toggleVoteRound ::
  "(string \<Rightarrow> int option) \<Rightarrow> string \<Rightarrow> string \<Rightarrow> backend \<times> appState \<Rightarrow> backend \<times> appState" where
  "toggleVoteRound getTime newId itemId bs =
     (case bs of (be, s) \<Rightarrow>
        (case user s of
           None \<Rightarrow> (be, s)
         | Some u \<Rightarrow>
             (let be' = applyCall newId (toggleVoteCall s u itemId) be
              in (be', fst (toggleVote getTime (Success ()) (Success (Some (selectItems be')))
                              itemId s)))))"

text \<open>
  The shape the specification gives every handler: among its effects exactly two
  backend calls, one mutation and then the select of a reload.
\<close>

definition mutateThenReload :: "effect list \<Rightarrow> bool" where
  "mutateThenReload es =
     (case backendCalls es of
        [m, q] \<Rightarrow> isMutation m \<and> q = SelectItems
      | _ \<Rightarrow> False)"

section \<open>Sample data\<close>

text \<open>
  Concrete rows, a concrete state and a fragment of \<open>getTime\<close> (three ISO dates with
  their milliseconds since the epoch; every other string is taken as no date), used
  where a theorem is applied to a concrete input.
\<close>

definition exTime :: "string \<Rightarrow> int option" where
  "exTime t =
     (if t = ''2024-01-01T00:00:00Z'' then Some 1704067200000
      else if t = ''2024-01-02T00:00:00Z'' then Some 1704153600000
      else if t = ''2024-01-03T00:00:00Z'' then Some 1704240000000
      else None)"

definition exVote :: "string \<Rightarrow> string \<Rightarrow> string \<Rightarrow> Vote" where
  "exVote vid itemId userId =
     \<lparr>vote_id = vid, vote_retro_item_id = itemId, vote_user_id = userId, vote_users = None\<rparr>"

definition exItem :: "string \<Rightarrow> Category \<Rightarrow> string \<Rightarrow> Vote list option \<Rightarrow> RetroItem" where
  "exItem itemId cat t vs =
     \<lparr>item_id = itemId, category = cat, content = ''Demo went well'', created_by = ''u1'',
      created_at = t, votes = vs, comments = Some [], users = Some ''ann''\<rparr>"

definition exA :: RetroItem where
  "exA = exItem ''A'' Good ''2024-01-01T00:00:00Z''
           (Some [exVote ''v1'' ''A'' ''u1'', exVote ''v2'' ''A'' ''u2''])"

definition exB :: RetroItem where
  "exB = exItem ''B'' Good ''2024-01-02T00:00:00Z''
           (Some [exVote ''v3'' ''B'' ''u1'', exVote ''v4'' ''B'' ''u3''])"

definition exC :: RetroItem where
  "exC = exItem ''C'' Good ''2024-01-03T00:00:00Z'' None"

definition exD :: RetroItem where
  "exD = exItem ''D'' Bad ''2024-01-02T00:00:00Z'' None"

definition exState :: appState where
  "exState =
     \<lparr>user = Some \<lparr>uid = ''u1''\<rparr>, items = [exA, exB, exC], loading = False,
      newItemContent = (\<lambda>c. if c = Bad then ''  '' else ''Ship it''),
      showComments = Map.empty, newComments = [''A'' \<mapsto> ''agreed'']\<rparr>"

definition exError :: apiError where
  "exError = \<lparr>message = Some ''permission denied'', error_message = None\<rparr>"

definition exBackend :: backend where
  "exBackend =
     \<lparr>retro_items = [exA, exB, exC],
      votesTable = [exVote ''v1'' ''A'' ''u1'', exVote ''v2'' ''A'' ''u2'',
                    exVote ''v3'' ''B'' ''u1'', exVote ''v4'' ''B'' ''u3''],
      nicknames = [''u1'' \<mapsto> ''ann'']\<rparr>"

definition exSynced :: appState where
  "exSynced = exState\<lparr>items := sortedData exTime (Some (selectItems exBackend))\<rparr>"

section \<open>The order of an assembled sequence\<close>


section \<open>Properties of the sort\<close>

lemma set_sortInsert: "set (sortInsert cmp x ys) = insert x (set ys)"
  by (induction ys) auto

lemma set_arraySort: "set (arraySort f xs) = set xs"
  by (induction xs) (simp_all add: arraySort_def set_sortInsert)

lemma mset_sortInsert: "mset (sortInsert cmp x ys) = add_mset x (mset ys)"
  by (induction ys) auto

lemma mset_arraySort: "mset (arraySort f xs) = mset xs"
  by (induction xs) (simp_all add: arraySort_def mset_sortInsert)






lemma exSample_sorted: "sortedData exTime (Some [exA, exB, exC]) = [exB, exA, exC]"
  by (simp add: sortedData_def dataOrEmpty_def arraySort_def sortCompare_def compareFn_def
      voteCount_def exA_def exB_def exC_def exItem_def exTime_def)

section \<open>C1: the sort invariant of the fetched items\<close>



section \<open>C2: the category groups partition the items\<close>

lemma mset_three_groups:
  "mset (filter (\<lambda>item. category item = Good) xs @ filter (\<lambda>item. category item = Bad) xs @
         filter (\<lambda>item. category item = Better) xs) = mset xs"
proof (induction xs)
  case Nil
  then show ?case by simp
next
  case (Cons x xs)
  then show ?case by (cases "category x") simp_all
qed

text \<open>
  Claim C2. For every list of items, an item is in the group \<open>getItemsByCategory\<close>
  gives for a category exactly when that is its \<open>category\<close> field, so it is in exactly
  one group; the three groups together are a permutation of the list (the same
  multiset); and a category no item has gives the empty list, a value like any other.
\<close>

theorem getItemsByCategory_partition:
  "(\<forall>x\<in>set (items s). \<forall>c. x \<in> set (getItemsByCategory s c) \<longleftrightarrow> category x = c) \<and>
   (\<forall>c. \<forall>x\<in>set (getItemsByCategory s c). x \<in> set (items s) \<and> category x = c) \<and>
   mset (getItemsByCategory s Good @ getItemsByCategory s Bad @ getItemsByCategory s Better)
     = mset (items s) \<and>
   ((\<forall>x\<in>set (items s). category x \<noteq> c') \<longrightarrow> getItemsByCategory s c' = [])"
proof -
  have "mset (getItemsByCategory s Good @ getItemsByCategory s Bad @ getItemsByCategory s Better)
          = mset (items s)"
    unfolding getItemsByCategory_def by (rule mset_three_groups)
  moreover have "(\<forall>x\<in>set (items s). category x \<noteq> c') \<longrightarrow> getItemsByCategory s c' = []"
    by (auto simp: getItemsByCategory_def filter_empty_conv)
  ultimately show ?thesis
    by (simp add: getItemsByCategory_def)
qed

theorem getItemsByCategory_partition_witness:
  "getItemsByCategory (exState\<lparr>items := [exA, exD, exB]\<rparr>) Good = [exA, exB] \<and>
   getItemsByCategory (exState\<lparr>items := [exA, exD, exB]\<rparr>) Bad = [exD] \<and>
   getItemsByCategory (exState\<lparr>items := [exA, exD, exB]\<rparr>) Better = [] \<and>
   mset ([exA, exB] @ [exD] @ []) = mset [exA, exD, exB]"
proof -
  let ?s = "exState\<lparr>items := [exA, exD, exB]\<rparr>"
  have g: "getItemsByCategory ?s Good = [exA, exB]" "getItemsByCategory ?s Bad = [exD]"
    by (simp_all add: getItemsByCategory_def exA_def exB_def exD_def exItem_def)
  have none: "\<forall>x\<in>set (items ?s). category x \<noteq> Better"
    by (simp add: exA_def exB_def exD_def exItem_def)
  from getItemsByCategory_partition [of ?s Better] none
  have b: "getItemsByCategory ?s Better = []"
    and m: "mset (getItemsByCategory ?s Good @ getItemsByCategory ?s Bad @
                  getItemsByCategory ?s Better) = mset (items ?s)"
    by blast+
  from m show ?thesis using g b by simp
qed

section \<open>C4: a violated precondition makes add-item and add-comment do nothing\<close>

lemma trim_all_white: "\<forall>ch\<in>set str. isWhiteSpace ch \<Longrightarrow> trim str = []"
proof -
  assume "\<forall>ch\<in>set str. isWhiteSpace ch"
  then have d: "dropWhile isWhiteSpace str = []"
    by (simp add: dropWhile_eq_Nil_conv)
  show ?thesis by (simp only: trim_def d rev.simps dropWhile.simps)
qed

text \<open>
  Claim C4. When the draft is empty after \<open>trim\<close> (for a comment: there is no draft, or
  it trims to the empty string) or no user is signed in, \<open>addItem\<close> and \<open>addComment\<close>
  return the state as it was and have no effect at all, so no backend call; in
  particular for an item draft of white space only. This holds whatever the backend
  would have answered.
\<close>

theorem precondition_violation_noop:
  "((trim (newItemContent s cat) = [] \<or> user s = None) \<longrightarrow> addItem resp cat s = (s, [])) \<and>
   ((\<forall>ch\<in>set (newItemContent s cat). isWhiteSpace ch) \<longrightarrow> addItem resp cat s = (s, [])) \<and>
   ((newComments s itemId = None \<or> (\<exists>d. newComments s itemId = Some d \<and> trim d = []) \<or>
     user s = None)
      \<longrightarrow> addComment getTime resp' fetched itemId s = (s, []))"
proof -
  have a: "(trim (newItemContent s cat) = [] \<or> user s = None) \<longrightarrow> addItem resp cat s = (s, [])"
    by (auto simp: addItem_def Let_def split: option.splits)
  have b: "(\<forall>ch\<in>set (newItemContent s cat). isWhiteSpace ch) \<longrightarrow> addItem resp cat s = (s, [])"
    using a trim_all_white by blast
  have c: "(newComments s itemId = None \<or> (\<exists>d. newComments s itemId = Some d \<and> trim d = []) \<or>
     user s = None) \<longrightarrow> addComment getTime resp' fetched itemId s = (s, [])"
    by (auto simp: addComment_def commentDraft_def Let_def split: option.splits)
  from a b c show ?thesis by blast
qed

theorem precondition_violation_noop_witness:
  "trim (newItemContent exState Bad) = [] \<and>
   addItem (Success exC) Bad exState = (exState, []) \<and>
   newComments exState ''B'' = None \<and>
   addComment exTime (Success ()) (Success None) ''B'' exState = (exState, [])"
proof -
  have t: "trim (newItemContent exState Bad) = []"
    by (simp add: exState_def trim_def isWhiteSpace_def)
  have n: "newComments exState ''B'' = None"
    by (simp add: exState_def)
  from precondition_violation_noop [of exState Bad "Success exC" "''B''" exTime "Success ()" "Success None"]
    t n
  show ?thesis by blast
qed

section \<open>C6: a failed fetch leaves the items in place\<close>

text \<open>
  Claim C6. When the select of \<open>fetchItems\<close> fails, the sort does not run: \<open>items\<close> is
  what it was (the state changes in \<open>loading\<close> only, which \<open>finally\<close> resets), the error
  is written to the console twice, and nothing is shown with \<open>alert\<close>.
\<close>

theorem fetchItems_failure_keeps_items:
  "fst (fetchItems getTime (Failure e) s) = s\<lparr>loading := False\<rparr> \<and>
   items (fst (fetchItems getTime (Failure e) s)) = items s \<and>
   snd (fetchItems getTime (Failure e) s) =
     [Backend SelectItems,
      ConsoleError ''Error fetching items:'' (LoggedError e),
      ConsoleError ''Error details:'' (LoggedText (errorMessage e ''Failed to load items.''))] \<and>
   alerts (snd (fetchItems getTime (Failure e) s)) = []"
  by (simp add: fetchItems_def)

theorem fetchItems_failure_keeps_items_witness:
  "items (fst (fetchItems exTime (Failure exError) exState)) = [exA, exB, exC] \<and>
   snd (fetchItems exTime (Failure exError) exState) =
     [Backend SelectItems,
      ConsoleError ''Error fetching items:'' (LoggedError exError),
      ConsoleError ''Error details:'' (LoggedText ''permission denied'')] \<and>
   alerts (snd (fetchItems exTime (Failure exError) exState)) = []"
  using fetchItems_failure_keeps_items [of exTime exError exState]
  by (simp add: exState_def errorMessage_def exError_def)

section \<open>C10: has the current user voted\<close>

text \<open>
  Claim C10. Without a signed-in user \<open>hasUserVoted\<close> is \<open>false\<close> for every item. With
  one, it is \<open>true\<close> exactly when the item has an embedded vote whose \<open>user_id\<close> is the
  user's id (for an item without a votes array it is \<open>undefined\<close>, which is not \<open>true\<close>).
\<close>

theorem hasUserVoted_spec:
  "(user s = None \<longrightarrow> hasUserVoted s item = Some False) \<and>
   (user s = Some u \<longrightarrow>
      (hasUserVoted s item = Some True \<longleftrightarrow>
         (\<exists>vs. votes item = Some vs \<and> (\<exists>vote\<in>set vs. vote_user_id vote = uid u))))"
  by (auto simp: hasUserVoted_def list_ex_iff split: option.splits)

theorem hasUserVoted_spec_witness:
  "hasUserVoted (exState\<lparr>user := None\<rparr>) exA = Some False \<and>
   hasUserVoted exState exA = Some True \<and>
   hasUserVoted exState exC \<noteq> Some True"
proof -
  have u: "user exState = Some \<lparr>uid = ''u1''\<rparr>" "user (exState\<lparr>user := None\<rparr>) = None"
    by (simp_all add: exState_def)
  have v: "\<exists>vs. votes exA = Some vs \<and> (\<exists>vote\<in>set vs. vote_user_id vote = uid \<lparr>uid = ''u1''\<rparr>)"
    by (simp add: exA_def exItem_def exVote_def)
  have w: "\<not> (\<exists>vs. votes exC = Some vs \<and> (\<exists>vote\<in>set vs. vote_user_id vote = uid \<lparr>uid = ''u1''\<rparr>))"
    by (simp add: exC_def exItem_def)
  from hasUserVoted_spec [of "exState\<lparr>user := None\<rparr>" exA] u
  have 1: "hasUserVoted (exState\<lparr>user := None\<rparr>) exA = Some False" by blast
  from hasUserVoted_spec [of exState exA "\<lparr>uid = ''u1''\<rparr>"] u v
  have 2: "hasUserVoted exState exA = Some True" by blast
  from hasUserVoted_spec [of exState exC "\<lparr>uid = ''u1''\<rparr>"] u w
  have 3: "hasUserVoted exState exC \<noteq> Some True" by blast
  from 1 2 3 show ?thesis by blast
qed


section \<open>Helper facts about the handlers\<close>

lemma backendCalls_fetchItems: "backendCalls (snd (fetchItems getTime fetched s)) = [SelectItems]"
  by (cases fetched) (simp_all add: fetchItems_def)

lemma errorMessage_cases:
  "errorMessage e fb =
     (case message e of
        Some m \<Rightarrow> if m \<noteq> [] then m
                  else (case error_message e of
                          Some m' \<Rightarrow> if m' \<noteq> [] then m' else fb | None \<Rightarrow> fb)
      | None \<Rightarrow> (case error_message e of
                   Some m' \<Rightarrow> if m' \<noteq> [] then m' else fb | None \<Rightarrow> fb))"
  by (simp add: errorMessage_def split: option.splits)

lemma exState_user: "user exState = Some \<lparr>uid = ''u1''\<rparr>"
  by (simp add: exState_def)

lemma exState_draft: "trim (newItemContent exState Good) = ''Ship it''"
  by (simp add: exState_def trim_def isWhiteSpace_def)

section \<open>C3: one mutation, then a reload\<close>

text \<open>
  Claim C3 says that each of the five handlers performs exactly one backend mutation
  and then, on success, reloads, and that none updates \<open>items\<close> incrementally. For
  \<open>addItem\<close> this is false: after a successful insert it makes no select and puts the
  new row in front of \<open>items\<close> itself.
\<close>

theorem addItem_reload_counterexample:
  "user exState = Some \<lparr>uid = ''u1''\<rparr> \<and>
   snd (addItem (Success exD) Good exState) = [Backend (InsertItem Good ''Ship it'' ''u1'')] \<and>
   \<not> mutateThenReload (snd (addItem (Success exD) Good exState)) \<and>
   SelectItems \<notin> set (backendCalls (snd (addItem (Success exD) Good exState))) \<and>
   items (fst (addItem (Success exD) Good exState))
     = exD\<lparr>votes := Some [], comments := Some []\<rparr> # items exState"
  by (simp add: addItem_def Let_def exState_user exState_draft mutateThenReload_def)


text \<open>
  Claim C3, amended. With a signed-in user (and, for a comment, a draft that is not
  empty after trimming; for a deletion, the prompt confirmed), \<open>toggleVote\<close>,
  \<open>addComment\<close>, \<open>deleteItem\<close> and \<open>deleteComment\<close> make exactly one mutation and, when
  it succeeds, the select of \<open>fetchItems\<close>; the state they leave is the one \<open>fetchItems\<close>
  leaves (\<open>addComment\<close> clears that item's comment draft first), so \<open>items\<close> changes
  only through the reload. \<open>addItem\<close> makes exactly one mutation, the insert, and when
  it succeeds makes no select: it puts the returned row, with empty votes and comments,
  in front of \<open>items\<close> and clears the category's draft.
\<close>

theorem handlers_mutate_then_reload:
  "(user s = Some u \<longrightarrow>
      backendCalls (snd (toggleVote getTime (Success ()) fetched itemId s))
        = [toggleVoteCall s u itemId, SelectItems] \<and>
      isMutation (toggleVoteCall s u itemId) \<and>
      mutateThenReload (snd (toggleVote getTime (Success ()) fetched itemId s)) \<and>
      fst (toggleVote getTime (Success ()) fetched itemId s) = fst (fetchItems getTime fetched s)) \<and>
   (user s = Some u \<and> commentDraft s itemId \<noteq> [] \<longrightarrow>
      backendCalls (snd (addComment getTime (Success ()) fetched itemId s))
        = [InsertComment itemId (uid u) (commentDraft s itemId), SelectItems] \<and>
      mutateThenReload (snd (addComment getTime (Success ()) fetched itemId s)) \<and>
      fst (addComment getTime (Success ()) fetched itemId s)
        = fst (fetchItems getTime fetched (s\<lparr>newComments := (newComments s)(itemId \<mapsto> [])\<rparr>))) \<and>
   (user s = Some u \<longrightarrow>
      backendCalls (snd (deleteItem getTime True (Success ()) fetched itemId s))
        = [DeleteItem itemId, SelectItems] \<and>
      mutateThenReload (snd (deleteItem getTime True (Success ()) fetched itemId s)) \<and>
      fst (deleteItem getTime True (Success ()) fetched itemId s) = fst (fetchItems getTime fetched s)) \<and>
   (user s = Some u \<longrightarrow>
      backendCalls (snd (deleteComment getTime True (Success ()) fetched commentId s))
        = [DeleteComment commentId, SelectItems] \<and>
      mutateThenReload (snd (deleteComment getTime True (Success ()) fetched commentId s)) \<and>
      fst (deleteComment getTime True (Success ()) fetched commentId s)
        = fst (fetchItems getTime fetched s)) \<and>
   (user s = Some u \<and> trim (newItemContent s cat) \<noteq> [] \<longrightarrow>
      snd (addItem (Success row) cat s)
        = [Backend (InsertItem cat (trim (newItemContent s cat)) (uid u))] \<and>
      fst (addItem (Success row) cat s)
        = s\<lparr>items := row\<lparr>votes := Some [], comments := Some []\<rparr> # items s,
             newItemContent := (newItemContent s)(cat := [])\<rparr>)"
proof -
  have tv: "isMutation (toggleVoteCall s u itemId)"
    by (simp add: toggleVoteCall_def split: option.splits)
  have 1: "user s = Some u \<longrightarrow>
      backendCalls (snd (toggleVote getTime (Success ()) fetched itemId s))
        = [toggleVoteCall s u itemId, SelectItems] \<and>
      isMutation (toggleVoteCall s u itemId) \<and>
      mutateThenReload (snd (toggleVote getTime (Success ()) fetched itemId s)) \<and>
      fst (toggleVote getTime (Success ()) fetched itemId s) = fst (fetchItems getTime fetched s)"
    using tv backendCalls_fetchItems [of getTime fetched s]
    by (simp add: toggleVote_def mutateThenReload_def case_prod_beta)
  have 2: "user s = Some u \<and> commentDraft s itemId \<noteq> [] \<longrightarrow>
      backendCalls (snd (addComment getTime (Success ()) fetched itemId s))
        = [InsertComment itemId (uid u) (commentDraft s itemId), SelectItems] \<and>
      mutateThenReload (snd (addComment getTime (Success ()) fetched itemId s)) \<and>
      fst (addComment getTime (Success ()) fetched itemId s)
        = fst (fetchItems getTime fetched (s\<lparr>newComments := (newComments s)(itemId \<mapsto> [])\<rparr>))"
    using backendCalls_fetchItems
      [of getTime fetched "s\<lparr>newComments := (newComments s)(itemId \<mapsto> [])\<rparr>"]
    by (simp add: addComment_def mutateThenReload_def Let_def case_prod_beta)
  have 3: "user s = Some u \<longrightarrow>
      backendCalls (snd (deleteItem getTime True (Success ()) fetched itemId s))
        = [DeleteItem itemId, SelectItems] \<and>
      mutateThenReload (snd (deleteItem getTime True (Success ()) fetched itemId s)) \<and>
      fst (deleteItem getTime True (Success ()) fetched itemId s) = fst (fetchItems getTime fetched s)"
    using backendCalls_fetchItems [of getTime fetched s]
    by (simp add: deleteItem_def mutateThenReload_def case_prod_beta)
  have 4: "user s = Some u \<longrightarrow>
      backendCalls (snd (deleteComment getTime True (Success ()) fetched commentId s))
        = [DeleteComment commentId, SelectItems] \<and>
      mutateThenReload (snd (deleteComment getTime True (Success ()) fetched commentId s)) \<and>
      fst (deleteComment getTime True (Success ()) fetched commentId s)
        = fst (fetchItems getTime fetched s)"
    using backendCalls_fetchItems [of getTime fetched s]
    by (simp add: deleteComment_def mutateThenReload_def case_prod_beta)
  have 5: "user s = Some u \<and> trim (newItemContent s cat) \<noteq> [] \<longrightarrow>
      snd (addItem (Success row) cat s)
        = [Backend (InsertItem cat (trim (newItemContent s cat)) (uid u))] \<and>
      fst (addItem (Success row) cat s)
        = s\<lparr>items := row\<lparr>votes := Some [], comments := Some []\<rparr> # items s,
             newItemContent := (newItemContent s)(cat := [])\<rparr>"
    by (simp add: addItem_def Let_def)
  from 1 2 3 4 5 show ?thesis by (intro conjI)
qed

theorem handlers_mutate_then_reload_witness:
  "backendCalls (snd (toggleVote exTime (Success ()) (Success (Some [exA, exB, exC])) ''C'' exState))
     = [InsertVote ''C'' ''u1'', SelectItems] \<and>
   items (fst (toggleVote exTime (Success ()) (Success (Some [exA, exB, exC])) ''C'' exState))
     = [exB, exA, exC] \<and>
   snd (addItem (Success exD) Good exState) = [Backend (InsertItem Good ''Ship it'' ''u1'')] \<and>
   items (fst (addItem (Success exD) Good exState))
     = exD\<lparr>votes := Some [], comments := Some []\<rparr> # [exA, exB, exC]"
proof -
  let ?u = "\<lparr>uid = ''u1''\<rparr>"
  let ?f = "Success (Some [exA, exB, exC])"
  have v: "toggleVoteCall exState ?u ''C'' = InsertVote ''C'' ''u1''"
    by (simp add: toggleVoteCall_def existingVote_def exState_def exA_def exB_def exC_def
        exItem_def exVote_def)
  have f: "items (fst (fetchItems exTime ?f exState)) = [exB, exA, exC]"
    by (simp add: fetchItems_def exSample_sorted)
  have i: "items exState = [exA, exB, exC]" by (simp add: exState_def)
  note H = handlers_mutate_then_reload
    [of exState ?u exTime ?f "''C''" "''c1''" Good exD]
  from H exState_user v f have 1:
    "backendCalls (snd (toggleVote exTime (Success ()) ?f ''C'' exState))
       = [InsertVote ''C'' ''u1'', SelectItems]"
    "items (fst (toggleVote exTime (Success ()) ?f ''C'' exState)) = [exB, exA, exC]"
    by simp_all
  from H exState_user exState_draft i have 2:
    "snd (addItem (Success exD) Good exState) = [Backend (InsertItem Good ''Ship it'' ''u1'')]"
    "items (fst (addItem (Success exD) Good exState))
       = exD\<lparr>votes := Some [], comments := Some []\<rparr> # [exA, exB, exC]"
    by simp_all
  from 1 2 show ?thesis by (intro conjI)
qed

section \<open>C7: a failed mutation\<close>

text \<open>
  Claim C7. When the mutation of a handler fails (the handler got as far as making
  it), the handler returns the state exactly as it was, so every draft is kept; its
  effects are the mutation, one \<open>console.error\<close> and one \<open>alert\<close>, so there is no
  select; and the text of the alert is \<open>message\<close> of the error when it is a non-empty
  string, else the nested \<open>error.message\<close> when that is one, else the handler's own
  fallback text. Each \<open>throw\<close> of the source is the \<open>Failure\<close> branch, which ends in the
  \<open>catch\<close> block: the handler returns a state and its effects, it raises nothing.
\<close>

theorem mutation_failure_aborts:
  "(user s = Some u \<and> trim (newItemContent s cat) \<noteq> [] \<longrightarrow>
      addItem (Failure e) cat s =
        (s, [Backend (InsertItem cat (trim (newItemContent s cat)) (uid u)),
             ConsoleError ''Error adding item:'' (LoggedError e),
             Alert (errorMessage e ''Failed to add item. Please try again.'')])) \<and>
   (user s = Some u \<longrightarrow>
      toggleVote getTime (Failure e) fetched itemId s =
        (s, [Backend (toggleVoteCall s u itemId),
             ConsoleError ''Error toggling vote:'' (LoggedError e),
             Alert (errorMessage e ''Failed to vote. Please try again.'')])) \<and>
   (user s = Some u \<and> commentDraft s itemId \<noteq> [] \<longrightarrow>
      addComment getTime (Failure e) fetched itemId s =
        (s, [Backend (InsertComment itemId (uid u) (commentDraft s itemId)),
             ConsoleError ''Error adding comment:'' (LoggedError e),
             Alert (errorMessage e ''Failed to add comment. Please try again.'')])) \<and>
   (user s = Some u \<longrightarrow>
      deleteItem getTime True (Failure e) fetched itemId s =
        (s, [Confirm deleteItemPrompt, Backend (DeleteItem itemId),
             ConsoleError ''Error deleting item:'' (LoggedError e),
             Alert (errorMessage e ''Failed to delete item. Please try again.'')])) \<and>
   (user s = Some u \<longrightarrow>
      deleteComment getTime True (Failure e) fetched commentId s =
        (s, [Confirm deleteCommentPrompt, Backend (DeleteComment commentId),
             ConsoleError ''Error deleting comment:'' (LoggedError e),
             Alert (errorMessage e ''Failed to delete comment. Please try again.'')])) \<and>
   (\<forall>fb m. message e = Some m \<and> m \<noteq> [] \<longrightarrow> errorMessage e fb = m) \<and>
   (\<forall>fb m. (message e = None \<or> message e = Some []) \<and> error_message e = Some m \<and> m \<noteq> []
      \<longrightarrow> errorMessage e fb = m) \<and>
   (\<forall>fb. (message e = None \<or> message e = Some []) \<and>
         (error_message e = None \<or> error_message e = Some [])
      \<longrightarrow> errorMessage e fb = fb)"
proof -
  have 1: "user s = Some u \<and> trim (newItemContent s cat) \<noteq> [] \<longrightarrow>
      addItem (Failure e) cat s =
        (s, [Backend (InsertItem cat (trim (newItemContent s cat)) (uid u)),
             ConsoleError ''Error adding item:'' (LoggedError e),
             Alert (errorMessage e ''Failed to add item. Please try again.'')])"
    by (simp add: addItem_def catchBlock_def Let_def)
  have 2: "user s = Some u \<longrightarrow>
      toggleVote getTime (Failure e) fetched itemId s =
        (s, [Backend (toggleVoteCall s u itemId),
             ConsoleError ''Error toggling vote:'' (LoggedError e),
             Alert (errorMessage e ''Failed to vote. Please try again.'')])"
    by (simp add: toggleVote_def catchBlock_def)
  have 3: "user s = Some u \<and> commentDraft s itemId \<noteq> [] \<longrightarrow>
      addComment getTime (Failure e) fetched itemId s =
        (s, [Backend (InsertComment itemId (uid u) (commentDraft s itemId)),
             ConsoleError ''Error adding comment:'' (LoggedError e),
             Alert (errorMessage e ''Failed to add comment. Please try again.'')])"
    by (simp add: addComment_def catchBlock_def Let_def)
  have 4: "user s = Some u \<longrightarrow>
      deleteItem getTime True (Failure e) fetched itemId s =
        (s, [Confirm deleteItemPrompt, Backend (DeleteItem itemId),
             ConsoleError ''Error deleting item:'' (LoggedError e),
             Alert (errorMessage e ''Failed to delete item. Please try again.'')])"
    by (simp add: deleteItem_def catchBlock_def)
  have 5: "user s = Some u \<longrightarrow>
      deleteComment getTime True (Failure e) fetched commentId s =
        (s, [Confirm deleteCommentPrompt, Backend (DeleteComment commentId),
             ConsoleError ''Error deleting comment:'' (LoggedError e),
             Alert (errorMessage e ''Failed to delete comment. Please try again.'')])"
    by (simp add: deleteComment_def catchBlock_def)
  have 6: "\<forall>fb m. message e = Some m \<and> m \<noteq> [] \<longrightarrow> errorMessage e fb = m"
    by (simp add: errorMessage_cases)
  have 7: "\<forall>fb m. (message e = None \<or> message e = Some []) \<and> error_message e = Some m \<and> m \<noteq> []
      \<longrightarrow> errorMessage e fb = m"
    by (auto simp: errorMessage_cases)
  have 8: "\<forall>fb. (message e = None \<or> message e = Some []) \<and>
         (error_message e = None \<or> error_message e = Some [])
      \<longrightarrow> errorMessage e fb = fb"
    by (auto simp: errorMessage_cases)
  from 1 2 3 4 5 6 7 8 show ?thesis by (intro conjI)
qed

theorem mutation_failure_aborts_witness:
  "addItem (Failure exError) Good exState =
     (exState, [Backend (InsertItem Good ''Ship it'' ''u1''),
                ConsoleError ''Error adding item:'' (LoggedError exError),
                Alert ''permission denied'']) \<and>
   toggleVote exTime (Failure exError) (Success None) ''A'' exState =
     (exState, [Backend (DeleteVote ''v1''),
                ConsoleError ''Error toggling vote:'' (LoggedError exError),
                Alert ''permission denied'']) \<and>
   addComment exTime (Failure \<lparr>message = None, error_message = None\<rparr>) (Success None) ''A'' exState =
     (exState, [Backend (InsertComment ''A'' ''u1'' ''agreed''),
                ConsoleError ''Error adding comment:''
                  (LoggedError \<lparr>message = None, error_message = None\<rparr>),
                Alert ''Failed to add comment. Please try again.''])"
proof -
  let ?u = "\<lparr>uid = ''u1''\<rparr>"
  let ?e0 = "\<lparr>message = None, error_message = None\<rparr>"
  have u: "user exState = Some ?u" by (simp add: exState_def)
  have d: "trim (newItemContent exState Good) = ''Ship it''"
    by (simp add: exState_def trim_def isWhiteSpace_def)
  have c: "commentDraft exState ''A'' = ''agreed''"
    by (simp add: commentDraft_def exState_def trim_def isWhiteSpace_def)
  have v: "toggleVoteCall exState ?u ''A'' = DeleteVote ''v1''"
    by (simp add: toggleVoteCall_def existingVote_def exState_def exA_def exItem_def exVote_def)
  have m: "message exError = Some ''permission denied''" by (simp add: exError_def)
  note A = mutation_failure_aborts [of exState ?u Good exError exTime "Success None" "''A''" "''c1''"]
  note B = mutation_failure_aborts [of exState ?u Good ?e0 exTime "Success None" "''A''" "''c1''"]
  from A u d m have 1: "addItem (Failure exError) Good exState =
     (exState, [Backend (InsertItem Good ''Ship it'' ''u1''),
                ConsoleError ''Error adding item:'' (LoggedError exError),
                Alert ''permission denied''])"
    by simp
  from A u v m have 2: "toggleVote exTime (Failure exError) (Success None) ''A'' exState =
     (exState, [Backend (DeleteVote ''v1''),
                ConsoleError ''Error toggling vote:'' (LoggedError exError),
                Alert ''permission denied''])"
    by simp
  from B u c have 3: "addComment exTime (Failure ?e0) (Success None) ''A'' exState =
     (exState, [Backend (InsertComment ''A'' ''u1'' ''agreed''),
                ConsoleError ''Error adding comment:'' (LoggedError ?e0),
                Alert ''Failed to add comment. Please try again.''])"
    by simp
  from 1 2 3 show ?thesis by (intro conjI)
qed

section \<open>C8: assembly depends on the fetched rows only, and is idempotent\<close>

lemma sortCompare_flip:
  "sortCompare (compareFn getTime) x y > 0 \<Longrightarrow> sortCompare (compareFn getTime) y x \<le> 0"
  by (auto simp: sortCompare_def compareFn_def Let_def split: option.splits if_splits)

lemma successively_sortInsert:
  assumes "\<And>a b. cmp a b > 0 \<Longrightarrow> cmp b a \<le> 0"
    and "successively (\<lambda>a b. cmp a b \<le> 0) ys"
  shows "successively (\<lambda>a b. cmp a b \<le> 0) (sortInsert cmp x ys)"
  using assms(2)
proof (induction ys)
  case Nil
  then show ?case by simp
next
  case (Cons y ys)
  show ?case
  proof (cases "cmp x y \<le> 0")
    case True
    with Cons.prems show ?thesis by simp
  next
    case False
    then have yx: "cmp y x \<le> 0" using assms(1) [of x y] by simp
    have tl: "successively (\<lambda>a b. cmp a b \<le> 0) (sortInsert cmp x ys)"
      using Cons.IH Cons.prems by (cases ys) simp_all
    show ?thesis
    proof (cases ys)
      case Nil
      with False yx show ?thesis by simp
    next
      case (Cons z zs)
      with False yx tl Cons.prems show ?thesis by (cases "cmp x z \<le> 0") simp_all
    qed
  qed
qed

lemma successively_arraySort:
  "successively (\<lambda>a b. sortCompare (compareFn getTime) a b \<le> 0)
     (arraySort (compareFn getTime) xs)"
proof (induction xs)
  case Nil
  then show ?case by (simp add: arraySort_def)
next
  case (Cons x xs)
  have "successively (\<lambda>a b. sortCompare (compareFn getTime) a b \<le> 0)
          (sortInsert (sortCompare (compareFn getTime)) x (arraySort (compareFn getTime) xs))"
    using sortCompare_flip Cons.IH by (rule successively_sortInsert)
  then show ?case by (simp add: arraySort_def)
qed

lemma arraySort_fixpoint:
  "successively (\<lambda>a b. sortCompare f a b \<le> 0) ys \<Longrightarrow> arraySort f ys = ys"
proof (induction ys)
  case Nil
  then show ?case by (simp add: arraySort_def)
next
  case (Cons y ys)
  then have "arraySort f ys = ys" by (cases ys) simp_all
  then have "arraySort f (y # ys) = sortInsert (sortCompare f) y ys"
    by (simp add: arraySort_def)
  with Cons.prems show ?case by (cases ys) simp_all
qed

lemma sortedData_idem: "sortedData getTime (Some (sortedData getTime data)) = sortedData getTime data"
  by (simp add: sortedData_def dataOrEmpty_def arraySort_fixpoint successively_arraySort)

text \<open>
  Claim C8. The items a successful \<open>fetchItems\<close> stores, and each category's group of
  them, are the same whatever the state before: they are a function of the fetched rows
  alone. Assembling the assembled items again (the sort works in place, so a second
  run on the same array sees the sorted rows) changes neither the items nor a group.
\<close>

theorem assembly_pure_idempotent:
  "items (fst (fetchItems getTime (Success data) s1))
     = items (fst (fetchItems getTime (Success data) s2)) \<and>
   getItemsByCategory (fst (fetchItems getTime (Success data) s1)) c
     = getItemsByCategory (fst (fetchItems getTime (Success data) s2)) c \<and>
   items (fst (fetchItems getTime
                 (Success (Some (items (fst (fetchItems getTime (Success data) s1))))) s2))
     = items (fst (fetchItems getTime (Success data) s1)) \<and>
   getItemsByCategory (fst (fetchItems getTime
                 (Success (Some (items (fst (fetchItems getTime (Success data) s1))))) s2)) c
     = getItemsByCategory (fst (fetchItems getTime (Success data) s1)) c"
  by (simp add: fetchItems_def getItemsByCategory_def sortedData_idem)

theorem assembly_pure_idempotent_witness:
  "items (fst (fetchItems exTime (Success (Some [exA, exB, exC])) exState)) = [exB, exA, exC] \<and>
   items (fst (fetchItems exTime (Success (Some [exA, exB, exC])) (exState\<lparr>items := []\<rparr>)))
     = [exB, exA, exC] \<and>
   items (fst (fetchItems exTime (Success (Some [exB, exA, exC])) exState)) = [exB, exA, exC]"
proof -
  have a: "items (fst (fetchItems exTime (Success (Some [exA, exB, exC])) exState)) = [exB, exA, exC]"
    by (simp add: fetchItems_def exSample_sorted)
  from assembly_pure_idempotent
    [of exTime "Some [exA, exB, exC]" exState "exState\<lparr>items := []\<rparr>" Good]
  have b: "items (fst (fetchItems exTime (Success (Some [exA, exB, exC])) (exState\<lparr>items := []\<rparr>)))
     = [exB, exA, exC]"
    using a by simp
  from assembly_pure_idempotent
    [of exTime "Some [exA, exB, exC]" exState exState Good]
  have c: "items (fst (fetchItems exTime (Success (Some [exB, exA, exC])) exState)) = [exB, exA, exC]"
    using a by simp
  from a b c show ?thesis by (intro conjI)
qed


section \<open>C5: toggling a vote\<close>

lemma mutations_toggleVote:
  "user s = Some u \<Longrightarrow>
   mutations (snd (toggleVote getTime resp fetched itemId s)) = [toggleVoteCall s u itemId]"
proof -
  assume u: "user s = Some u"
  have m: "isMutation (toggleVoteCall s u itemId)"
    by (simp add: toggleVoteCall_def split: option.splits)
  show ?thesis
  proof (cases resp)
    case (Failure e)
    with u m show ?thesis
      by (simp add: toggleVote_def mutations_def catchBlock_def)
  next
    case (Success x)
    with u m backendCalls_fetchItems [of getTime fetched s] show ?thesis
      by (simp add: toggleVote_def mutations_def case_prod_beta)
  qed
qed

lemma existingVote_Some:
  assumes "existingVote s u itemId = Some v"
  shows "\<exists>item vs. item \<in> set (items s) \<and> item_id item = itemId \<and> votes item = Some vs \<and>
           v \<in> set vs \<and> vote_user_id v = uid u"
  using assms
  by (auto simp: existingVote_def find_Some_iff split: option.splits) (metis nth_mem)

lemma existingVote_None:
  assumes "\<not> viewHasVote s u itemId"
  shows "existingVote s u itemId = None"
proof (cases "find (\<lambda>item. item_id item = itemId) (items s)")
  case None
  then show ?thesis by (simp add: existingVote_def)
next
  case (Some item)
  then have i: "item \<in> set (items s)" "item_id item = itemId"
    by (auto simp: find_Some_iff)
  show ?thesis
  proof (cases "votes item")
    case None
    with Some show ?thesis by (simp add: existingVote_def)
  next
    case (Some vs)
    with i assms have "\<forall>vote\<in>set vs. vote_user_id vote \<noteq> uid u"
      by (auto simp: viewHasVote_def list_ex_iff)
    then have "find (\<lambda>vote. vote_user_id vote = uid u) vs = None"
      by (simp add: find_None_iff)
    with Some \<open>find _ (items s) = Some item\<close> show ?thesis
      by (simp add: existingVote_def)
  qed
qed

lemma existingVote_distinct:
  assumes "distinct (map item_id (items s))" and "viewHasVote s u itemId"
  shows "existingVote s u itemId \<noteq> None"
proof -
  from assms(2) obtain item vs v where
    i: "item \<in> set (items s)" "item_id item = itemId" "votes item = Some vs"
       "v \<in> set vs" "vote_user_id v = uid u"
    by (auto simp: viewHasVote_def list_ex_iff split: option.splits)
  obtain item' where f: "find (\<lambda>item. item_id item = itemId) (items s) = Some item'"
    using i(1,2) by (cases "find (\<lambda>item. item_id item = itemId) (items s)")
      (auto simp: find_None_iff)
  then have "item' \<in> set (items s)" "item_id item' = itemId"
    by (auto simp: find_Some_iff)
  with assms(1) i(1,2) have "item' = item"
    by (metis distinct_map inj_onD)
  moreover have "find (\<lambda>vote. vote_user_id vote = uid u) vs \<noteq> None"
    using i(4,5) by (auto simp: find_None_iff)
  ultimately show ?thesis using f i(3) by (simp add: existingVote_def)
qed

lemma existingVote_in_sync:
  assumes "items s = sortedData getTime (Some (selectItems be))"
    and "itemId \<in> item_id ` set (retro_items be)"
  shows "existingVote s u itemId =
           find (\<lambda>vote. vote_user_id vote = uid u)
             (filter (\<lambda>v. vote_retro_item_id v = itemId) (votesTable be))"
proof -
  have set_items: "set (items s) = set (selectItems be)"
    by (simp add: assms(1) sortedData_def dataOrEmpty_def set_arraySort)
  have "\<exists>x\<in>set (items s). item_id x = itemId"
    using assms(2) unfolding set_items by (auto simp: selectItems_def)
  then obtain item where f: "find (\<lambda>item. item_id item = itemId) (items s) = Some item"
    by (cases "find (\<lambda>item. item_id item = itemId) (items s)") (auto simp: find_None_iff)
  then have "item \<in> set (selectItems be)" "item_id item = itemId"
    unfolding set_items [symmetric] by (auto simp: find_Some_iff)
  then have "votes item = Some (filter (\<lambda>v. vote_retro_item_id v = itemId) (votesTable be))"
    by (auto simp: selectItems_def)
  with f show ?thesis by (simp add: existingVote_def)
qed


lemma onePerPair_applyCall:
  assumes "items s = sortedData getTime (Some (selectItems be))"
    and "itemId \<in> item_id ` set (retro_items be)"
    and "onePerPair (votesTable be)"
  shows "onePerPair (votesTable (applyCall newId (toggleVoteCall s u itemId) be))"
proof (cases "existingVote s u itemId")
  case None
  then have "find (\<lambda>vote. vote_user_id vote = uid u)
               (filter (\<lambda>v. vote_retro_item_id v = itemId) (votesTable be)) = None"
    using existingVote_in_sync [OF assms(1,2), of u] by simp
  then have "(itemId, uid u) \<notin> (\<lambda>v. (vote_retro_item_id v, vote_user_id v)) ` set (votesTable be)"
    by (auto simp: find_None_iff)
  with None assms(3) show ?thesis
    by (simp add: toggleVoteCall_def onePerPair_def)
next
  case (Some v)
  with assms(3) show ?thesis
    by (simp add: toggleVoteCall_def onePerPair_def distinct_map_filter)
qed

lemma exSynced_items:
  "items exSynced =
     [exB\<lparr>votes := Some [exVote ''v3'' ''B'' ''u1'', exVote ''v4'' ''B'' ''u3'']\<rparr>,
      exA\<lparr>votes := Some [exVote ''v1'' ''A'' ''u1'', exVote ''v2'' ''A'' ''u2'']\<rparr>,
      exC\<lparr>votes := Some []\<rparr>]"
  by (simp add: exSynced_def exState_def sortedData_def dataOrEmpty_def arraySort_def
      sortCompare_def compareFn_def voteCount_def selectItems_def exBackend_def
      exA_def exB_def exC_def exItem_def exVote_def exTime_def)

lemma storedVote_pair:
  "storedVote be u itemId \<longleftrightarrow>
     (itemId, uid u) \<in> (\<lambda>v. (vote_retro_item_id v, vote_user_id v)) ` set (votesTable be)"
  by (auto simp: storedVote_def list_ex_iff)

lemma onePerPair_toggle_iff:
  assumes "onePerPair (votesTable be)"
  shows "onePerPair (votesTable (applyCall newId (toggleVoteCall s u itemId) be)) \<longleftrightarrow>
           (storedVote be u itemId \<longrightarrow> existingVote s u itemId \<noteq> None)"
proof (cases "existingVote s u itemId")
  case None
  with assms show ?thesis
    by (simp add: toggleVoteCall_def onePerPair_def storedVote_pair)
next
  case (Some v)
  with assms show ?thesis
    by (simp add: toggleVoteCall_def onePerPair_def distinct_map_filter)
qed

lemma onePerPair_toggle_stale:
  assumes "storedVote be u itemId" and "\<not> viewHasVote s u itemId"
  shows "\<not> onePerPair (votesTable (applyCall newId (toggleVoteCall s u itemId) be))"
proof -
  have "existingVote s u itemId = None"
    using assms(2) by (rule existingVote_None)
  with assms(1) show ?thesis
    by (simp add: toggleVoteCall_def onePerPair_def storedVote_pair)
qed

text \<open>
  Claim C5 says that the mutation \<open>toggleVote\<close> chooses keeps the stored votes at no
  more than one for each pair of item and user. That fails when the view model misses
  a stored vote. The user votes on item C and the insert succeeds, but the reload
  fails, so \<open>items\<close> stays as it was and still shows no vote; the user toggles again,
  \<open>toggleVote\<close> inserts again, and two votes of that user on C are stored.
\<close>

theorem toggleVote_stale_view_counterexample:
  "user exSynced = Some \<lparr>uid = ''u1''\<rparr> \<and>
   mutations (snd (toggleVote exTime (Success ()) (Failure exError) ''C'' exSynced))
     = [InsertVote ''C'' ''u1''] \<and>
   items (fst (toggleVote exTime (Success ()) (Failure exError) ''C'' exSynced))
     = items exSynced \<and>
   onePerPair (votesTable (applyCall ''v5'' (InsertVote ''C'' ''u1'') exBackend)) \<and>
   mutations (snd (toggleVote exTime (Success ()) (Success None) ''C''
                     (fst (toggleVote exTime (Success ()) (Failure exError) ''C'' exSynced))))
     = [InsertVote ''C'' ''u1''] \<and>
   \<not> onePerPair (votesTable (applyCall ''v6'' (InsertVote ''C'' ''u1'')
                                (applyCall ''v5'' (InsertVote ''C'' ''u1'') exBackend)))"
proof -
  let ?u = "\<lparr>uid = ''u1''\<rparr>"
  let ?s1 = "fst (toggleVote exTime (Success ()) (Failure exError) ''C'' exSynced)"
  have u: "user exSynced = Some ?u" by (simp add: exSynced_def exState_def)
  have s1: "?s1 = exSynced\<lparr>loading := False\<rparr>"
    using u by (simp add: toggleVote_def fetchItems_def)
  have u1: "user ?s1 = Some ?u" using u by (simp add: s1)
  have callC: "toggleVoteCall exSynced ?u ''C'' = InsertVote ''C'' ''u1''"
    by (simp add: toggleVoteCall_def existingVote_def exSynced_items exA_def exB_def exC_def
        exItem_def exVote_def)
  have callC1: "toggleVoteCall ?s1 ?u ''C'' = InsertVote ''C'' ''u1''"
    unfolding s1
    by (simp add: toggleVoteCall_def existingVote_def exSynced_items exA_def exB_def exC_def
        exItem_def exVote_def)
  have 1: "mutations (snd (toggleVote exTime (Success ()) (Failure exError) ''C'' exSynced))
             = [InsertVote ''C'' ''u1'']"
    using mutations_toggleVote [OF u] callC by simp
  have 2: "items ?s1 = items exSynced" by (simp add: s1)
  have 3: "onePerPair (votesTable (applyCall ''v5'' (InsertVote ''C'' ''u1'') exBackend))"
    by (simp add: onePerPair_def exBackend_def exVote_def)
  have 4: "mutations (snd (toggleVote exTime (Success ()) (Success None) ''C'' ?s1))
             = [InsertVote ''C'' ''u1'']"
    using mutations_toggleVote [OF u1] callC1 by simp
  have 5: "\<not> onePerPair (votesTable (applyCall ''v6'' (InsertVote ''C'' ''u1'')
                                (applyCall ''v5'' (InsertVote ''C'' ''u1'') exBackend)))"
    by (simp add: onePerPair_def exBackend_def exVote_def)
  from u 1 2 3 4 5 show ?thesis by (intro conjI)
qed


text \<open>
  Claim C5, amended. With a signed-in user, \<open>toggleVote\<close> issues exactly one mutation,
  whatever the backend answers. When the view model shows a vote by the user on the
  item (item ids in the view being distinct), the mutation deletes such a vote, matched
  by its id; when it shows none, the mutation inserts a vote for this item and this
  user. Starting from stored votes with at most one for each pair of item and user,
  the mutation keeps that exactly when the lookup of \<open>toggleVote\<close> finds a vote whenever
  one by the user on the item is stored; so it is kept when the view model shows every
  such stored vote (item ids distinct), in particular when the view model is the fetch
  of the stored rows, and it is lost when such a vote is stored and the view model
  shows none.
\<close>

theorem toggleVote_one_mutation:
  assumes "user s = Some u"
  shows "mutations (snd (toggleVote getTime resp fetched itemId s)) = [toggleVoteCall s u itemId] \<and>
    (distinct (map item_id (items s)) \<and> viewHasVote s u itemId \<longrightarrow>
       (\<exists>item vs v. item \<in> set (items s) \<and> item_id item = itemId \<and> votes item = Some vs \<and>
          v \<in> set vs \<and> vote_user_id v = uid u \<and>
          toggleVoteCall s u itemId = DeleteVote (vote_id v))) \<and>
    (\<not> viewHasVote s u itemId \<longrightarrow> toggleVoteCall s u itemId = InsertVote itemId (uid u)) \<and>
    (onePerPair (votesTable be) \<longrightarrow>
       (onePerPair (votesTable (applyCall newId (toggleVoteCall s u itemId) be)) \<longleftrightarrow>
          (storedVote be u itemId \<longrightarrow> existingVote s u itemId \<noteq> None))) \<and>
    (onePerPair (votesTable be) \<and> distinct (map item_id (items s)) \<and>
     (storedVote be u itemId \<longrightarrow> viewHasVote s u itemId) \<longrightarrow>
       onePerPair (votesTable (applyCall newId (toggleVoteCall s u itemId) be))) \<and>
    (onePerPair (votesTable be) \<and> items s = sortedData getTime (Some (selectItems be)) \<and>
     itemId \<in> item_id ` set (retro_items be) \<longrightarrow>
       onePerPair (votesTable (applyCall newId (toggleVoteCall s u itemId) be))) \<and>
    (storedVote be u itemId \<and> \<not> viewHasVote s u itemId \<longrightarrow>
       \<not> onePerPair (votesTable (applyCall newId (toggleVoteCall s u itemId) be)))"
proof -
  have a: "mutations (snd (toggleVote getTime resp fetched itemId s)) = [toggleVoteCall s u itemId]"
    using assms by (rule mutations_toggleVote)
  have b: "distinct (map item_id (items s)) \<and> viewHasVote s u itemId \<longrightarrow>
       (\<exists>item vs v. item \<in> set (items s) \<and> item_id item = itemId \<and> votes item = Some vs \<and>
          v \<in> set vs \<and> vote_user_id v = uid u \<and>
          toggleVoteCall s u itemId = DeleteVote (vote_id v))"
  proof
    assume h: "distinct (map item_id (items s)) \<and> viewHasVote s u itemId"
    then obtain v where v: "existingVote s u itemId = Some v"
      using existingVote_distinct [of s u itemId] by auto
    then have "toggleVoteCall s u itemId = DeleteVote (vote_id v)"
      by (simp add: toggleVoteCall_def)
    with existingVote_Some [OF v] show "\<exists>item vs v. item \<in> set (items s) \<and> item_id item = itemId \<and>
          votes item = Some vs \<and> v \<in> set vs \<and> vote_user_id v = uid u \<and>
          toggleVoteCall s u itemId = DeleteVote (vote_id v)"
      by blast
  qed
  have c: "\<not> viewHasVote s u itemId \<longrightarrow> toggleVoteCall s u itemId = InsertVote itemId (uid u)"
    by (simp add: toggleVoteCall_def existingVote_None)
  have d: "onePerPair (votesTable be) \<longrightarrow>
       (onePerPair (votesTable (applyCall newId (toggleVoteCall s u itemId) be)) \<longleftrightarrow>
          (storedVote be u itemId \<longrightarrow> existingVote s u itemId \<noteq> None))"
    using onePerPair_toggle_iff by blast
  have e: "onePerPair (votesTable be) \<and> distinct (map item_id (items s)) \<and>
     (storedVote be u itemId \<longrightarrow> viewHasVote s u itemId) \<longrightarrow>
       onePerPair (votesTable (applyCall newId (toggleVoteCall s u itemId) be))"
    using onePerPair_toggle_iff [of be newId s u itemId] existingVote_distinct [of s u itemId]
    by blast
  have f: "onePerPair (votesTable be) \<and> items s = sortedData getTime (Some (selectItems be)) \<and>
     itemId \<in> item_id ` set (retro_items be) \<longrightarrow>
       onePerPair (votesTable (applyCall newId (toggleVoteCall s u itemId) be))"
    using onePerPair_applyCall by blast
  have g: "storedVote be u itemId \<and> \<not> viewHasVote s u itemId \<longrightarrow>
       \<not> onePerPair (votesTable (applyCall newId (toggleVoteCall s u itemId) be))"
    using onePerPair_toggle_stale by blast
  from a b c d e f g show ?thesis by (intro conjI)
qed


theorem toggleVote_one_mutation_witness:
  "mutations (snd (toggleVote exTime (Success ()) (Success None) ''A'' exSynced))
     = [DeleteVote ''v1''] \<and>
   mutations (snd (toggleVote exTime (Failure exError) (Success None) ''C'' exSynced))
     = [InsertVote ''C'' ''u1''] \<and>
   onePerPair (votesTable exBackend) \<and>
   storedVote exBackend \<lparr>uid = ''u1''\<rparr> ''A'' \<and>
   viewHasVote exSynced \<lparr>uid = ''u1''\<rparr> ''A'' \<and>
   \<not> storedVote exBackend \<lparr>uid = ''u1''\<rparr> ''C'' \<and>
   onePerPair (votesTable (applyCall ''v5'' (InsertVote ''C'' ''u1'') exBackend)) \<and>
   onePerPair (votesTable (applyCall ''v5'' (DeleteVote ''v1'') exBackend))"
proof -
  let ?u = "\<lparr>uid = ''u1''\<rparr>"
  have u: "user exSynced = Some ?u" by (simp add: exSynced_def exState_def)
  have dist: "distinct (map item_id (items exSynced))"
    by (simp add: exSynced_items exA_def exB_def exC_def exItem_def)
  have inv: "onePerPair (votesTable exBackend)"
    by (simp add: onePerPair_def exBackend_def exVote_def)
  have stA: "storedVote exBackend ?u ''A''"
    by (simp add: storedVote_def exBackend_def exVote_def)
  have vwA: "viewHasVote exSynced ?u ''A''"
    by (simp add: viewHasVote_def exSynced_items exA_def exB_def exC_def exItem_def exVote_def)
  have stC: "\<not> storedVote exBackend ?u ''C''"
    by (simp add: storedVote_def exBackend_def exVote_def)
  have callA: "toggleVoteCall exSynced ?u ''A'' = DeleteVote ''v1''"
    by (simp add: toggleVoteCall_def existingVote_def exSynced_items exA_def exB_def exC_def
        exItem_def exVote_def)
  have callC: "toggleVoteCall exSynced ?u ''C'' = InsertVote ''C'' ''u1''"
    by (simp add: toggleVoteCall_def existingVote_def exSynced_items exA_def exB_def exC_def
        exItem_def exVote_def)
  note A = toggleVote_one_mutation [OF u, of exTime "Success ()" "Success None" "''A''" exBackend "''v5''"]
  note C = toggleVote_one_mutation [OF u, of exTime "Failure exError" "Success None" "''C''" exBackend "''v5''"]
  from A [unfolded callA] dist inv stA vwA
  have 1: "mutations (snd (toggleVote exTime (Success ()) (Success None) ''A'' exSynced))
             = [DeleteVote ''v1'']"
    and 2: "onePerPair (votesTable (applyCall ''v5'' (DeleteVote ''v1'') exBackend))"
    by blast+
  from C [unfolded callC] dist inv stC
  have 3: "mutations (snd (toggleVote exTime (Failure exError) (Success None) ''C'' exSynced))
             = [InsertVote ''C'' ''u1'']"
    and 4: "onePerPair (votesTable (applyCall ''v5'' (InsertVote ''C'' ''u1'') exBackend))"
    by blast+
  from 1 2 3 4 inv stA vwA stC show ?thesis by (intro conjI)
qed


section \<open>C9: voting and then taking the vote back\<close>

lemma find_snoc_first:
  "\<forall>x\<in>set xs. \<not> P x \<Longrightarrow> P y \<Longrightarrow> find P (xs @ [y]) = Some y"
  by (induction xs) simp_all

text \<open>
  Claim C9. A user who has not voted on an item (no such vote is stored, and the view
  model shows none) toggles twice, each toggle succeeding and the second seeing the
  items fetched after the first; the id generated for the new vote is not in use. The
  first toggle adds one vote; after the second the stored votes are the rows they were
  before, the very same records, for the item and for the table as a whole, and the
  items shown are those a fetch of the rows as they were before gives.
\<close>

theorem toggleVote_round_trip:
  assumes "user s = Some u"
    and "\<not> viewHasVote s u itemId"
    and "itemId \<in> item_id ` set (retro_items be)"
    and "\<forall>v\<in>set (votesTable be). \<not> (vote_retro_item_id v = itemId \<and> vote_user_id v = uid u)"
    and "newId \<notin> vote_id ` set (votesTable be)"
  shows "votesTable (fst (toggleVoteRound getTime newId itemId (be, s)))
           = votesTable be @ [\<lparr>vote_id = newId, vote_retro_item_id = itemId,
                               vote_user_id = uid u, vote_users = nicknames be (uid u)\<rparr>] \<and>
         votesTable (fst (toggleVoteRound getTime newId' itemId
                            (toggleVoteRound getTime newId itemId (be, s))))
           = votesTable be \<and>
         filter (\<lambda>v. vote_retro_item_id v = itemId)
           (votesTable (fst (toggleVoteRound getTime newId' itemId
                               (toggleVoteRound getTime newId itemId (be, s)))))
           = filter (\<lambda>v. vote_retro_item_id v = itemId) (votesTable be) \<and>
         items (snd (toggleVoteRound getTime newId' itemId
                       (toggleVoteRound getTime newId itemId (be, s))))
           = sortedData getTime (Some (selectItems be))"
proof -
  let ?nv = "\<lparr>vote_id = newId, vote_retro_item_id = itemId,
               vote_user_id = uid u, vote_users = nicknames be (uid u)\<rparr>"
  let ?be1 = "be\<lparr>votesTable := votesTable be @ [?nv]\<rparr>"
  let ?s1 = "s\<lparr>items := sortedData getTime (Some (selectItems ?be1)), loading := False\<rparr>"
  have none: "filter (\<lambda>v. vote_user_id v = uid u)
                (filter (\<lambda>v. vote_retro_item_id v = itemId) (votesTable be)) = []"
    using assms(4) by (auto simp: filter_empty_conv)
  have "existingVote s u itemId = None"
    using assms(2) by (rule existingVote_None)
  then have call1: "toggleVoteCall s u itemId = InsertVote itemId (uid u)"
    by (simp add: toggleVoteCall_def)
  have r1: "toggleVoteRound getTime newId itemId (be, s) = (?be1, ?s1)"
    using assms(1) call1
    by (simp add: toggleVoteRound_def toggleVote_def fetchItems_def Let_def)
  have sync1: "items ?s1 = sortedData getTime (Some (selectItems ?be1))" by simp
  have id1: "itemId \<in> item_id ` set (retro_items ?be1)" using assms(3) by simp
  have "find (\<lambda>vote. vote_user_id vote = uid u)
          (filter (\<lambda>v. vote_retro_item_id v = itemId) (votesTable ?be1)) = Some ?nv"
    using assms(4) by (simp add: find_snoc_first)
  then have "existingVote ?s1 u itemId = Some ?nv"
    using existingVote_in_sync [OF sync1 id1, of u] by simp
  then have call2: "toggleVoteCall ?s1 u itemId = DeleteVote newId"
    by (simp add: toggleVoteCall_def)
  have undo: "filter (\<lambda>v. vote_id v \<noteq> newId) (votesTable be @ [?nv]) = votesTable be"
    using assms(5) by (auto simp: filter_id_conv)
  have be2: "applyCall newId' (DeleteVote newId) ?be1 = be"
    using undo by simp
  have r2: "toggleVoteRound getTime newId' itemId (?be1, ?s1)
              = (be, ?s1\<lparr>items := sortedData getTime (Some (selectItems be)), loading := False\<rparr>)"
    using assms(1) call2 be2
    by (simp add: toggleVoteRound_def toggleVote_def fetchItems_def Let_def)
  show ?thesis
    unfolding r1 r2 by simp
qed


theorem toggleVote_round_trip_witness:
  "votesTable (fst (toggleVoteRound exTime ''v5'' ''C'' (exBackend, exSynced)))
     = votesTable exBackend @
         [\<lparr>vote_id = ''v5'', vote_retro_item_id = ''C'', vote_user_id = ''u1'',
           vote_users = Some ''ann''\<rparr>] \<and>
   votesTable (fst (toggleVoteRound exTime ''v6'' ''C''
                      (toggleVoteRound exTime ''v5'' ''C'' (exBackend, exSynced))))
     = votesTable exBackend \<and>
   items (snd (toggleVoteRound exTime ''v6'' ''C''
                 (toggleVoteRound exTime ''v5'' ''C'' (exBackend, exSynced))))
     = items exSynced \<and>
   \<not> viewHasVote exSynced \<lparr>uid = ''u1''\<rparr> ''C''"
proof -
  let ?u = "\<lparr>uid = ''u1''\<rparr>"
  have u: "user exSynced = Some ?u" by (simp add: exSynced_def exState_def)
  have sync: "items exSynced = sortedData exTime (Some (selectItems exBackend))"
    by (simp add: exSynced_def)
  have view: "\<not> viewHasVote exSynced ?u ''C''"
    by (simp add: viewHasVote_def exSynced_items exA_def exB_def exC_def exItem_def exVote_def)
  have ids: "''C'' \<in> item_id ` set (retro_items exBackend)"
    by (simp add: exBackend_def exA_def exB_def exC_def exItem_def)
  have fresh: "''v5'' \<notin> vote_id ` set (votesTable exBackend)"
    by (simp add: exBackend_def exVote_def)
  have notyet: "\<forall>v\<in>set (votesTable exBackend).
                  \<not> (vote_retro_item_id v = ''C'' \<and> vote_user_id v = uid ?u)"
    by (simp add: exBackend_def exVote_def)
  have nick: "nicknames exBackend (uid ?u) = Some ''ann''"
    by (simp add: exBackend_def)
  from toggleVote_round_trip [OF u view ids notyet fresh, of exTime "''v6''"] nick sync view
  show ?thesis by simp
qed


end
